theory Spec2Isabelle
  imports Main
begin

section \<open>mkcert: the entry point \<^verbatim>\<open>main.go\<close>\<close>

text \<open>
  The program is one Go file: \<^verbatim>\<open>main\<close> parses two mode flags, \<^verbatim>\<open>Run\<close> resolves the
  storage root, creates it, loads the authority, dispatches on the mode and validates the
  names before issuing; \<^verbatim>\<open>getCAROOT\<close>, \<^verbatim>\<open>install\<close>, \<^verbatim>\<open>uninstall\<close> and \<^verbatim>\<open>check\<close> are its
  helpers. Everything the file calls but does not define (the Go library and the methods
  of \<^verbatim>\<open>mkcert\<close> that live in other files) is a field of the record \<open>host\<close> below; the state
  outside the process (file system, trust stores) is a value of a type variable \<open>'w\<close>
  that these operations transform.
\<close>

subsection \<open>Data\<close>

text \<open>The struct \<^verbatim>\<open>mkcert\<close> (lines 36-47). A nil certificate or key is \<open>None\<close>.\<close>

record ('c, 'k) mkcert =
  installMode :: bool
  uninstallMode :: bool
  CAROOT :: string
  caCert :: "'c option"
  caKey :: "'k option"
  ignoreCheckFailure :: bool

text \<open>
  Every way the process ends other than by returning from \<^verbatim>\<open>main\<close>: the \<^verbatim>\<open>log.Fatal\<close>
  calls of the file, the fatal ends of the methods defined elsewhere, and the nil
  dereference of \<^verbatim>\<open>m.caCert.Verify\<close>.
\<close>

datatype fatal =
    ConflictingModes \<comment> \<open>line 26: "you can't set -install and -uninstall at the same time"\<close>
  | NoCAROOT \<comment> \<open>line 52: "failed to find the default CA location"\<close>
  | MkdirFailed \<comment> \<open>line 54: "failed to create the CAROOT"\<close>
  | LoadCAFailed \<comment> \<open>inside \<^verbatim>\<open>loadCA\<close>\<close>
  | InstallPlatformFailed \<comment> \<open>inside \<^verbatim>\<open>installPlatform\<close>\<close>
  | UninstallPlatformFailed \<comment> \<open>inside \<^verbatim>\<open>uninstallPlatform\<close>\<close>
  | InstallingFailed \<comment> \<open>line 147: "Installing failed. Please report the issue ..."\<close>
  | InvalidName string \<comment> \<open>line 102: "%q is not a valid hostname or IP", with the name\<close>
  | MakeCertFailed \<comment> \<open>inside \<^verbatim>\<open>makeCert\<close>\<close>
  | NilCertificate \<comment> \<open>line 161 with \<^verbatim>\<open>m.caCert == nil\<close>: a runtime panic\<close>

text \<open>What the process prints with \<^verbatim>\<open>log.Print*\<close> without ending.\<close>

datatype logline =
    WarnNotInstalled \<comment> \<open>line 66\<close>
  | WarnRunInstall \<comment> \<open>line 67\<close>
  | UsageText \<comment> \<open>lines 71-90\<close>
  | NowInstalled \<comment> \<open>line 145\<close>
  | NowUninstalled \<comment> \<open>line 153\<close>

text \<open>The calls that leave the process, in the order they are made.\<close>

datatype event =
    EMkdirAll string
  | ELoadCA
  | EVerify
  | EInstallPlatform
  | EUninstallPlatform
  | EMakeCert "string list"
  | ELog logline

text \<open>
  The Go runtime and library as one run sees them: \<^verbatim>\<open>runtime.GOOS\<close>, \<^verbatim>\<open>os.Getenv\<close>
  (the empty string for an unset variable), \<^verbatim>\<open>filepath.Join\<close>, \<^verbatim>\<open>net.ParseIP\<close> (whether
  it returns a non-nil address), \<^verbatim>\<open>os.MkdirAll\<close> and \<^verbatim>\<open>Certificate.Verify\<close> with the
  default options (whether it returns a nil error). An operation on the outside world
  returns whether it succeeded, and the world it leaves.
\<close>

record ('c, 'w) golib =
  GOOS :: string
  Getenv :: "string \<Rightarrow> string"
  Join :: "string list \<Rightarrow> string"
  ParseIP :: "string \<Rightarrow> bool"
  MkdirAll :: "string \<Rightarrow> 'w \<Rightarrow> bool \<times> 'w"
  Verify :: "'c \<Rightarrow> 'w \<Rightarrow> bool"

text \<open>
  Modelled from the spec: \<open>loadCA\<close>, \<open>installPlatform\<close>, \<open>uninstallPlatform\<close> and
  \<open>makeCert\<close> are methods of \<^verbatim>\<open>mkcert\<close> defined in other files of the repository.
  Following sections 4.2, 4.4 and 6 of the specification, \<open>loadCA\<close> either ends the
  process or yields a certificate together with its key; the trust-store operations and
  the issuer act on the outside world only, and an error of theirs ends the process
  (the \<open>False\<close> they return here). The host of a run is the library together with
  these four.
\<close>

record ('c, 'k, 'w) host = "('c, 'w) golib" +
  loadCA :: "('c, 'k) mkcert \<Rightarrow> 'w \<Rightarrow> ('c \<times> 'k) option \<times> 'w"
  installPlatform :: "('c, 'k) mkcert \<Rightarrow> 'w \<Rightarrow> bool \<times> 'w"
  uninstallPlatform :: "('c, 'k) mkcert \<Rightarrow> 'w \<Rightarrow> bool \<times> 'w"
  makeCert :: "('c, 'k) mkcert \<Rightarrow> string list \<Rightarrow> 'w \<Rightarrow> bool \<times> 'w"

text \<open>The state threaded through a run: the receiver \<^verbatim>\<open>m\<close>, the world, the calls so far.\<close>

record ('c, 'k, 'w) proc =
  recv :: "('c, 'k) mkcert"
  world :: 'w
  trace :: "event list"

text \<open>A call either returns a value or ends the process; both carry the state reached.\<close>

datatype ('a, 's) outcome = Ret 'a 's | Fatal fatal 's

fun reached :: "('a, 's) outcome \<Rightarrow> 's" where
  "reached (Ret _ s) = s"
| "reached (Fatal _ s) = s"

definition emit :: "event \<Rightarrow> ('c, 'k, 'w) proc \<Rightarrow> ('c, 'k, 'w) proc" where
  "emit e s = s\<lparr>trace := trace s @ [e]\<rparr>"

subsection \<open>\<^verbatim>\<open>getCAROOT\<close> (lines 108-134)\<close>

definition getCAROOT :: "('c, 'k, 'w) host \<Rightarrow> string" where
  "getCAROOT h =
     (let env = Getenv h ''CAROOT'' in
      if env \<noteq> [] then env
      else if GOOS h = ''windows'' then
        Join h [Getenv h ''LocalAppData'', ''mkcert'']
      else if GOOS h = ''darwin'' then
        (let dir = Getenv h ''HOME'' in
         if dir = [] then []
         else Join h [Join h [dir, ''Library'', ''Application Support''], ''mkcert''])
      else
        (let dir = Getenv h ''XDG_DATA_HOME'' in
         if dir = [] then
           (let dir = Getenv h ''HOME'' in
            if dir = [] then []
            else Join h [Join h [dir, ''.local'', ''share''], ''mkcert''])
         else Join h [dir, ''mkcert'']))"

subsection \<open>\<^verbatim>\<open>check\<close>, \<^verbatim>\<open>install\<close>, \<^verbatim>\<open>uninstall\<close> (lines 136-163)\<close>

definition check :: "('c, 'k, 'w) host \<Rightarrow> ('c, 'k, 'w) proc \<Rightarrow> (bool, ('c, 'k, 'w) proc) outcome" where
  "check h s =
     (if ignoreCheckFailure (recv s) then Ret True s
      else case caCert (recv s) of
        None \<Rightarrow> Fatal NilCertificate s
      | Some c \<Rightarrow> Ret (Verify h c (world s)) (emit EVerify s))"

definition install :: "('c, 'k, 'w) host \<Rightarrow> ('c, 'k, 'w) proc \<Rightarrow> (unit, ('c, 'k, 'w) proc) outcome" where
  "install h s =
     (case check h s of
        Fatal e s1 \<Rightarrow> Fatal e s1
      | Ret trusted s1 \<Rightarrow>
          if trusted then Ret () s1
          else
            (case installPlatform h (recv s1) (world s1) of
               (ok, w) \<Rightarrow>
                 let s2 = emit EInstallPlatform (s1\<lparr>world := w\<rparr>) in
                 if \<not> ok then Fatal InstallPlatformFailed s2
                 else
                   let s3 = s2\<lparr>recv := (recv s2)\<lparr>ignoreCheckFailure := True\<rparr>\<rparr> in
                   (case check h s3 of
                      Fatal e s4 \<Rightarrow> Fatal e s4
                    | Ret trusted' s4 \<Rightarrow>
                        if trusted' then Ret () (emit (ELog NowInstalled) s4)
                        else Fatal InstallingFailed s4)))"

definition uninstall :: "('c, 'k, 'w) host \<Rightarrow> ('c, 'k, 'w) proc \<Rightarrow> (unit, ('c, 'k, 'w) proc) outcome" where
  "uninstall h s =
     (case uninstallPlatform h (recv s) (world s) of
        (ok, w) \<Rightarrow>
          let s1 = emit EUninstallPlatform (s\<lparr>world := w\<rparr>) in
          if \<not> ok then Fatal UninstallPlatformFailed s1
          else Ret () (emit (ELog NowUninstalled) s1))"

subsection \<open>The hostname pattern (line 94)\<close>

text \<open>
  Go's \<^verbatim>\<open>regexp\<close> reads its input as UTF-8: \<^verbatim>\<open>MatchString\<close> steps through the string
  with \<^verbatim>\<open>utf8.DecodeRuneInString\<close> and matches runes (code points). A byte sequence that
  is not well-formed UTF-8 is read as the rune \<^verbatim>\<open>U+FFFD\<close>, one byte at a time.
  \<open>utf8_first\<close> is the library's table \<^verbatim>\<open>first\<close> for the lead bytes of multi-byte
  sequences: the length of the sequence and the range its second byte must lie in.
\<close>

type_synonym rune = nat

definition RuneError :: rune where
  "RuneError = 0xFFFD"

definition utf8_first :: "nat \<Rightarrow> (nat \<times> nat \<times> nat) option" where
  "utf8_first b =
     (if 0xC2 \<le> b \<and> b \<le> 0xDF then Some (2, 0x80, 0xBF)
      else if b = 0xE0 then Some (3, 0xA0, 0xBF)
      else if 0xE1 \<le> b \<and> b \<le> 0xEC then Some (3, 0x80, 0xBF)
      else if b = 0xED then Some (3, 0x80, 0x9F)
      else if 0xEE \<le> b \<and> b \<le> 0xEF then Some (3, 0x80, 0xBF)
      else if b = 0xF0 then Some (4, 0x90, 0xBF)
      else if 0xF1 \<le> b \<and> b \<le> 0xF3 then Some (4, 0x80, 0xBF)
      else if b = 0xF4 then Some (4, 0x80, 0x8F)
      else None)"

definition DecodeRuneInString :: "string \<Rightarrow> rune \<times> nat" where
  "DecodeRuneInString s =
     (case map of_char s of
        [] \<Rightarrow> (RuneError, 0)
      | s0 # t \<Rightarrow>
          if s0 < 0x80 then (s0, 1)
          else
            (case utf8_first s0 of
               None \<Rightarrow> (RuneError, 1)
             | Some (sz, lo, hi) \<Rightarrow>
                 if length s < sz then (RuneError, 1)
                 else
                   let s1 = t ! 0 in
                   if s1 < lo \<or> hi < s1 then (RuneError, 1)
                   else if sz \<le> 2 then (s0 mod 32 * 64 + s1 mod 64, 2)
                   else
                     let s2 = t ! 1 in
                     if s2 < 0x80 \<or> 0xBF < s2 then (RuneError, 1)
                     else if sz \<le> 3 then (s0 mod 16 * 4096 + s1 mod 64 * 64 + s2 mod 64, 3)
                     else
                       let s3 = t ! 2 in
                       if s3 < 0x80 \<or> 0xBF < s3 then (RuneError, 1)
                       else (s0 mod 8 * 262144 + s1 mod 64 * 4096 + s2 mod 64 * 64 + s3 mod 64, 4)))"

text \<open>The runes of a string, as the matcher's \<^verbatim>\<open>step\<close> reads them one after the other.\<close>

fun runes :: "string \<Rightarrow> rune list" where
  "runes [] = []"
| "runes (c # cs) = (case DecodeRuneInString (c # cs) of (r, n) \<Rightarrow> r # runes (drop (n - 1) cs))"

text \<open>
  Regular expressions over atoms, with the two constants that derivatives need. The
  pattern of line 94 uses literals, bracket classes, concatenation, \<^verbatim>\<open>?\<close> and \<^verbatim>\<open>*\<close>.
\<close>

datatype atom = Lit char | Class "(char \<times> char) list"

datatype 'a rx =
    Never
  | Empty
  | Atom 'a
  | Alt "'a rx" "'a rx"
  | Seq "'a rx" "'a rx"
  | Opt "'a rx"
  | Star "'a rx"

text \<open>The words of an expression; \<open>ok a c\<close> says that the atom \<open>a\<close> accepts the symbol \<open>c\<close>.\<close>

inductive_set kleene :: "'c list set \<Rightarrow> 'c list set" for L :: "'c list set" where
  kleene_Nil: "[] \<in> kleene L"
| kleene_step: "u \<in> L \<Longrightarrow> v \<in> kleene L \<Longrightarrow> u @ v \<in> kleene L"

fun lang :: "('a \<Rightarrow> 'c \<Rightarrow> bool) \<Rightarrow> 'a rx \<Rightarrow> 'c list set" where
  "lang ok Never = {}"
| "lang ok Empty = {[]}"
| "lang ok (Atom a) = {[c] | c. ok a c}"
| "lang ok (Alt r1 r2) = lang ok r1 \<union> lang ok r2"
| "lang ok (Seq r1 r2) = {u @ v | u v. u \<in> lang ok r1 \<and> v \<in> lang ok r2}"
| "lang ok (Opt r) = insert [] (lang ok r)"
| "lang ok (Star r) = kleene (lang ok r)"

text \<open>The matcher: derivatives, symbol by symbol, then the empty-word test.\<close>

fun nullable :: "'a rx \<Rightarrow> bool" where
  "nullable Never = False"
| "nullable Empty = True"
| "nullable (Atom a) = False"
| "nullable (Alt r1 r2) = (nullable r1 \<or> nullable r2)"
| "nullable (Seq r1 r2) = (nullable r1 \<and> nullable r2)"
| "nullable (Opt r) = True"
| "nullable (Star r) = True"

fun deriv :: "('a \<Rightarrow> 'c \<Rightarrow> bool) \<Rightarrow> 'c \<Rightarrow> 'a rx \<Rightarrow> 'a rx" where
  "deriv ok c Never = Never"
| "deriv ok c Empty = Never"
| "deriv ok c (Atom a) = (if ok a c then Empty else Never)"
| "deriv ok c (Alt r1 r2) = Alt (deriv ok c r1) (deriv ok c r2)"
| "deriv ok c (Seq r1 r2) =
     (if nullable r1 then Alt (Seq (deriv ok c r1) r2) (deriv ok c r2)
      else Seq (deriv ok c r1) r2)"
| "deriv ok c (Opt r) = deriv ok c r"
| "deriv ok c (Star r) = Seq (deriv ok c r) (Star r)"

fun matches :: "('a \<Rightarrow> 'c \<Rightarrow> bool) \<Rightarrow> 'a rx \<Rightarrow> 'c list \<Rightarrow> bool" where
  "matches ok r [] = nullable r"
| "matches ok r (c # cs) = matches ok (deriv ok c r) cs"

text \<open>
  Atoms on runes. Under the flag \<^verbatim>\<open>(?i)\<close> an atom also accepts every rune whose
  case-folding orbit (\<^verbatim>\<open>unicode.SimpleFold\<close>) holds a rune it accepts. The atoms of the
  pattern are ASCII, so only the ASCII members of an orbit matter; \<open>foldsASCII r\<close> lists
  them (\<open>r\<close> itself left out): the other case of an ASCII letter, \<^verbatim>\<open>S\<close> and \<^verbatim>\<open>s\<close> for
  \<^verbatim>\<open>U+017F\<close> (long s), \<^verbatim>\<open>K\<close> and \<^verbatim>\<open>k\<close> for \<^verbatim>\<open>U+212A\<close> (Kelvin sign).
\<close>

fun atom_has :: "atom \<Rightarrow> rune \<Rightarrow> bool" where
  "atom_has (Lit c) r = (r = of_char c)"
| "atom_has (Class rs) r = list_ex (\<lambda>(lo, hi). of_char lo \<le> r \<and> r \<le> of_char hi) rs"

definition foldsASCII :: "rune \<Rightarrow> rune list" where
  "foldsASCII r =
     (if 0x41 \<le> r \<and> r \<le> 0x5A then [r + 0x20]
      else if 0x61 \<le> r \<and> r \<le> 0x7A then [r - 0x20]
      else if r = 0x17F then [0x53, 0x73]
      else if r = 0x212A then [0x4B, 0x6B]
      else [])"

definition atom_match :: "bool \<Rightarrow> atom \<Rightarrow> rune \<Rightarrow> bool" where
  "atom_match fc a r = (atom_has a r \<or> (fc \<and> list_ex (atom_has a) (foldsASCII r)))"

text \<open>
  A compiled pattern: its flag and its expression. The patterns here start with \<^verbatim>\<open>^\<close>
  and end with \<^verbatim>\<open>$\<close>, which without the flag \<^verbatim>\<open>m\<close> are the start and the end of the
  text: \<^verbatim>\<open>MatchString\<close> holds when the whole text is a word of the expression.
\<close>

record regexp =
  foldCase :: bool
  expr :: "atom rx"

definition MatchString :: "regexp \<Rightarrow> string \<Rightarrow> bool" where
  "MatchString re s = matches (atom_match (foldCase re)) (expr re) (runes s)"

text \<open>The two bracket classes of the pattern, \<^verbatim>\<open>[0-9a-z_-]\<close> and \<^verbatim>\<open>[0-9a-z._-]\<close>.\<close>

definition labelClass :: atom where
  "labelClass =
     Class [(CHR ''0'', CHR ''9''), (CHR ''a'', CHR ''z''), (CHR ''_'', CHR ''_''),
            (CHR ''-'', CHR ''-'')]"

definition dottedClass :: atom where
  "dottedClass =
     Class [(CHR ''0'', CHR ''9''), (CHR ''a'', CHR ''z''), (CHR ''.'', CHR ''.''),
            (CHR ''_'', CHR ''_''), (CHR ''-'', CHR ''-'')]"

text \<open>\<^verbatim>\<open>(?i)^(\*\.)?[0-9a-z_-]([0-9a-z._-]*[0-9a-z_-])?$\<close>\<close>

definition hostnameRegexp :: regexp where
  "hostnameRegexp =
     \<lparr>foldCase = True,
      expr =
        Seq (Opt (Seq (Atom (Lit CHR ''*'')) (Atom (Lit CHR ''.''))))
         (Seq (Atom labelClass)
           (Opt (Seq (Star (Atom dottedClass)) (Atom labelClass))))\<rparr>"

subsection \<open>\<^verbatim>\<open>Run\<close> (lines 49-106) and \<^verbatim>\<open>main\<close> (lines 20-31)\<close>

text \<open>One turn of the loop of lines 95-103: whether the name passes.\<close>

definition validName :: "('c, 'k, 'w) host \<Rightarrow> string \<Rightarrow> bool" where
  "validName h name = (if ParseIP h name then True else MatchString hostnameRegexp name)"

text \<open>The loop: the first name that ends the process, if any.\<close>

fun validate :: "('c, 'k, 'w) host \<Rightarrow> string list \<Rightarrow> string option" where
  "validate h [] = None"
| "validate h (name # rest) = (if validName h name then validate h rest else Some name)"

text \<open>Lines 50-55: the storage root, its directory, the authority.\<close>

definition prepare :: "('c, 'k, 'w) host \<Rightarrow> ('c, 'k, 'w) proc \<Rightarrow> (unit, ('c, 'k, 'w) proc) outcome" where
  "prepare h s0 =
     (let s1 = s0\<lparr>recv := (recv s0)\<lparr>CAROOT := getCAROOT h\<rparr>\<rparr> in
      if CAROOT (recv s1) = [] then Fatal NoCAROOT s1
      else
        (case MkdirAll h (CAROOT (recv s1)) (world s1) of
           (ok, w) \<Rightarrow>
             let s2 = emit (EMkdirAll (CAROOT (recv s1))) (s1\<lparr>world := w\<rparr>) in
             if \<not> ok then Fatal MkdirFailed s2
             else
               (case loadCA h (recv s2) (world s2) of
                  (ca, w') \<Rightarrow>
                    let s3 = emit ELoadCA (s2\<lparr>world := w'\<rparr>) in
                    (case ca of
                       None \<Rightarrow> Fatal LoadCAFailed s3
                     | Some (c, k) \<Rightarrow>
                         Ret () (s3\<lparr>recv := (recv s3)\<lparr>caCert := Some c, caKey := Some k\<rparr>\<rparr>)))))"

text \<open>
  Lines 57-68: the mode. The value returned says whether \<^verbatim>\<open>Run\<close> goes on to line 70
  (\<open>True\<close>) or has returned (\<open>False\<close>).
\<close>

definition dispatch ::
  "('c, 'k, 'w) host \<Rightarrow> string list \<Rightarrow> ('c, 'k, 'w) proc \<Rightarrow> (bool, ('c, 'k, 'w) proc) outcome" where
  "dispatch h args s =
     (if installMode (recv s) then
        (case install h s of
           Fatal e s1 \<Rightarrow> Fatal e s1
         | Ret _ s1 \<Rightarrow> if length args = 0 then Ret False s1 else Ret True s1)
      else if uninstallMode (recv s) then
        (case uninstall h s of
           Fatal e s1 \<Rightarrow> Fatal e s1
         | Ret _ s1 \<Rightarrow> Ret False s1)
      else
        (case check h s of
           Fatal e s1 \<Rightarrow> Fatal e s1
         | Ret trusted s1 \<Rightarrow>
             if \<not> trusted then
               Ret True (emit (ELog WarnRunInstall) (emit (ELog WarnNotInstalled) s1))
             else Ret True s1))"

text \<open>Lines 70-105: the usage text, the names, the certificate.\<close>

definition issue ::
  "('c, 'k, 'w) host \<Rightarrow> string list \<Rightarrow> ('c, 'k, 'w) proc \<Rightarrow> (unit, ('c, 'k, 'w) proc) outcome" where
  "issue h args s =
     (if length args = 0 then Ret () (emit (ELog UsageText) s)
      else
        (case validate h args of
           Some name \<Rightarrow> Fatal (InvalidName name) s
         | None \<Rightarrow>
             (case makeCert h (recv s) args (world s) of
                (ok, w) \<Rightarrow>
                  let s1 = emit (EMakeCert args) (s\<lparr>world := w\<rparr>) in
                  if ok then Ret () s1 else Fatal MakeCertFailed s1)))"

definition Run ::
  "('c, 'k, 'w) host \<Rightarrow> string list \<Rightarrow> ('c, 'k, 'w) proc \<Rightarrow> (unit, ('c, 'k, 'w) proc) outcome" where
  "Run h args s0 =
     (case prepare h s0 of
        Fatal e s1 \<Rightarrow> Fatal e s1
      | Ret _ s1 \<Rightarrow>
          (case dispatch h args s1 of
             Fatal e s2 \<Rightarrow> Fatal e s2
           | Ret continue s2 \<Rightarrow> if continue then issue h args s2 else Ret () s2))"

text \<open>
  What is seen of a run from outside: how it ended (\<open>None\<close> is the return from \<^verbatim>\<open>main\<close>),
  the world it left and the calls it made.
\<close>

type_synonym 'w run = "fatal option \<times> 'w \<times> event list"

fun finish :: "(unit, ('c, 'k, 'w) proc) outcome \<Rightarrow> 'w run" where
  "finish (Ret _ s) = (None, world s, trace s)"
| "finish (Fatal e s) = (Some e, world s, trace s)"

text \<open>
  \<^verbatim>\<open>main\<close>, after \<^verbatim>\<open>flag.Parse\<close>: the two flags, the remaining arguments, the world the
  process starts in.
\<close>

definition start :: "bool \<Rightarrow> bool \<Rightarrow> 'w \<Rightarrow> ('c, 'k, 'w) proc" where
  "start installFlag uninstallFlag w =
     \<lparr>recv = \<lparr>installMode = installFlag, uninstallMode = uninstallFlag, CAROOT = [],
              caCert = None, caKey = None, ignoreCheckFailure = False\<rparr>,
      world = w, trace = []\<rparr>"

definition main :: "('c, 'k, 'w) host \<Rightarrow> bool \<Rightarrow> bool \<Rightarrow> string list \<Rightarrow> 'w \<Rightarrow> 'w run" where
  "main h installFlag uninstallFlag args w =
     (if installFlag \<and> uninstallFlag then (Some ConflictingModes, w, [])
      else finish (Run h args (start installFlag uninstallFlag w)))"

subsection \<open>Two readings of "hostname"\<close>

text \<open>
  What the pattern accepts, said without the pattern: after an optional \<^verbatim>\<open>*.\<close>, a
  non-empty run of label runes and dots that neither starts nor ends with a dot. A label
  rune is an ASCII letter or digit, \<^verbatim>\<open>_\<close>, \<^verbatim>\<open>-\<close>, or one of the two runes that fold to
  an ASCII letter.
\<close>

definition label_rune :: "rune \<Rightarrow> bool" where
  "label_rune r =
     ((0x30 \<le> r \<and> r \<le> 0x39) \<or> (0x41 \<le> r \<and> r \<le> 0x5A) \<or> (0x61 \<le> r \<and> r \<le> 0x7A) \<or>
      r = 0x5F \<or> r = 0x2D \<or> r = 0x17F \<or> r = 0x212A)"

definition name_body :: "rune list \<Rightarrow> bool" where
  "name_body b =
     (b \<noteq> [] \<and> list_all (\<lambda>r. label_rune r \<or> r = 0x2E) b \<and> hd b \<noteq> 0x2E \<and> last b \<noteq> 0x2E)"

definition hostname_shape :: "rune list \<Rightarrow> bool" where
  "hostname_shape rs = (name_body rs \<or> (take 2 rs = [0x2A, 0x2E] \<and> name_body (drop 2 rs)))"

text \<open>
  The grammar in the words of the specification (section 4.5): an optional leading
  \<^verbatim>\<open>*.\<close>, then one or more labels separated by dots, each label made of alphanumerics,
  underscore and hyphen, neither starting nor ending with a hyphen or an underscore.
\<close>

fun splitDots :: "string \<Rightarrow> string list" where
  "splitDots [] = [[]]"
| "splitDots (c # cs) =
     (if c = CHR ''.'' then [] # splitDots cs
      else (case splitDots cs of [] \<Rightarrow> [[c]] | l # ls \<Rightarrow> (c # l) # ls))"

definition spec_alnum :: "char \<Rightarrow> bool" where
  "spec_alnum c =
     (let n = (of_char c :: nat) in
      (0x30 \<le> n \<and> n \<le> 0x39) \<or> (0x41 \<le> n \<and> n \<le> 0x5A) \<or> (0x61 \<le> n \<and> n \<le> 0x7A))"

definition spec_label :: "string \<Rightarrow> bool" where
  "spec_label l =
     (l \<noteq> [] \<and> list_all (\<lambda>c. spec_alnum c \<or> c = CHR ''_'' \<or> c = CHR ''-'') l \<and>
      hd l \<noteq> CHR ''-'' \<and> hd l \<noteq> CHR ''_'' \<and> last l \<noteq> CHR ''-'' \<and> last l \<noteq> CHR ''_'')"

definition spec_hostname :: "string \<Rightarrow> bool" where
  "spec_hostname s =
     list_all spec_label (splitDots (if take 2 s = ''*.'' then drop 2 s else s))"

subsection \<open>Example hosts\<close>

text \<open>
  Concrete environments on which the definitions are run. The outside world of the
  examples records the directories created, whether the authority is registered in the
  trust store, whether the root pool this process loaded holds it (the pool is loaded
  once, so registering during the run does not change it), and the certificates issued.
\<close>

record sys =
  dirs :: "string list"
  registered :: bool
  pool :: bool
  issued :: "string list list"

definition fresh_sys :: sys where
  "fresh_sys = \<lparr>dirs = [], registered = False, pool = False, issued = []\<rparr>"

definition trusting_sys :: sys where
  "trusting_sys = \<lparr>dirs = [], registered = True, pool = True, issued = []\<rparr>"

text \<open>
  \<^verbatim>\<open>filepath.Join\<close> as the library documents it, for paths without a volume name: empty
  elements are ignored, the others are joined with the separator and the result is
  cleaned (no empty or \<^verbatim>\<open>.\<close> element, an inner \<^verbatim>\<open>..\<close> removed with the element before
  it, \<^verbatim>\<open>..\<close> dropped at the root); all elements empty gives the empty string.
\<close>

fun splitSep :: "(char \<Rightarrow> bool) \<Rightarrow> string \<Rightarrow> string list" where
  "splitSep p [] = [[]]"
| "splitSep p (c # cs) =
     (if p c then [] # splitSep p cs
      else (case splitSep p cs of [] \<Rightarrow> [[c]] | e # es \<Rightarrow> (c # e) # es))"

fun joinWith :: "char \<Rightarrow> string list \<Rightarrow> string" where
  "joinWith sep [] = []"
| "joinWith sep [e] = e"
| "joinWith sep (e # es) = e @ sep # joinWith sep es"

fun cleanElems :: "bool \<Rightarrow> string list \<Rightarrow> string list \<Rightarrow> string list" where
  "cleanElems rooted out [] = rev out"
| "cleanElems rooted out (e # es) =
     (if e = [] \<or> e = ''.'' then cleanElems rooted out es
      else if e = ''..'' then
        (case out of
           [] \<Rightarrow> if rooted then cleanElems rooted [] es else cleanElems rooted [e] es
         | e1 # below \<Rightarrow>
             if e1 = ''..'' then cleanElems rooted (e # out) es
             else cleanElems rooted below es)
      else cleanElems rooted (e # out) es)"

definition Clean_model :: "(char \<Rightarrow> bool) \<Rightarrow> char \<Rightarrow> string \<Rightarrow> string" where
  "Clean_model isSep sep path =
     (let rooted = (path \<noteq> [] \<and> isSep (hd path));
          body = joinWith sep (cleanElems rooted [] (splitSep isSep path));
          out = (if rooted then sep # body else body)
      in if out = [] then ''.'' else out)"

definition Join_model :: "(char \<Rightarrow> bool) \<Rightarrow> char \<Rightarrow> string list \<Rightarrow> string" where
  "Join_model isSep sep elems =
     (case filter (\<lambda>e. e \<noteq> []) elems of
        [] \<Rightarrow> []
      | es \<Rightarrow> Clean_model isSep sep (joinWith sep es))"

text \<open>
  \<^verbatim>\<open>net.ParseIP\<close> on the example hosts: it knows the two literals of the usage text.
  Every other name the examples use is empty or holds a letter that is not a hexadecimal
  digit, so it is no IP literal for the library either.
\<close>

definition example_ParseIP :: "string \<Rightarrow> bool" where
  "example_ParseIP s = (s = ''127.0.0.1'' \<or> s = ''::1'')"

definition unix_host :: "(nat, nat, sys) host" where
  "unix_host =
     \<lparr>GOOS = ''linux'',
      Getenv = (\<lambda>v. if v = ''HOME'' then ''/home/u'' else []),
      Join = Join_model (\<lambda>c. c = CHR ''/'') CHR ''/'',
      ParseIP = example_ParseIP,
      MkdirAll = (\<lambda>p w. (True, w\<lparr>dirs := p # dirs w\<rparr>)),
      Verify = (\<lambda>c w. pool w),
      loadCA = (\<lambda>m w. (Some (1, 2), w)),
      installPlatform = (\<lambda>m w. (True, w\<lparr>registered := True\<rparr>)),
      uninstallPlatform = (\<lambda>m w. (True, w\<lparr>registered := False\<rparr>)),
      makeCert = (\<lambda>m names w. (True, w\<lparr>issued := names # issued w\<rparr>))\<rparr>"

text \<open>The same host with the override variable set.\<close>

definition override_host :: "(nat, nat, sys) host" where
  "override_host =
     unix_host\<lparr>Getenv := (\<lambda>v. if v = ''CAROOT'' then ''/srv/ca'' else
                                if v = ''HOME'' then ''/home/u'' else [])\<rparr>"

text \<open>A Windows host on which no environment variable is set.\<close>

definition windows_host :: "(nat, nat, sys) host" where
  "windows_host =
     unix_host\<lparr>GOOS := ''windows'',
               Getenv := (\<lambda>v. []),
               Join := Join_model (\<lambda>c. c = CHR ''/'' \<or> c = CHR 0x5C) (CHR 0x5C)\<rparr>"

text \<open>A Unix host on which no environment variable is set.\<close>

definition bare_host :: "(nat, nat, sys) host" where
  "bare_host = unix_host\<lparr>Getenv := (\<lambda>v. [])\<rparr>"

text \<open>A Unix host on which the storage directory cannot be created.\<close>

definition readonly_host :: "(nat, nat, sys) host" where
  "readonly_host = unix_host\<lparr>MkdirAll := (\<lambda>p w. (False, w))\<rparr>"

text \<open>
  A Unix host on which \<^verbatim>\<open>loadCA\<close> ends the process, after leaving a mark in the world.
\<close>

definition noauthority_host :: "(nat, nat, sys) host" where
  "noauthority_host = unix_host\<lparr>loadCA := (\<lambda>m w. (None, w\<lparr>dirs := ''probe'' # dirs w\<rparr>))\<rparr>"

text \<open>
  The state \<open>unix_host\<close> reaches from \<open>fresh_sys\<close> after lines 50-55 when no mode
  flag is set: the root resolved, the directory created, the authority loaded.
\<close>

definition prepared :: "(nat, nat, sys) proc" where
  "prepared =
     \<lparr>recv = \<lparr>installMode = False, uninstallMode = False,
              CAROOT = ''/home/u/.local/share/mkcert'',
              caCert = Some 1, caKey = Some 2, ignoreCheckFailure = False\<rparr>,
      world = fresh_sys\<lparr>dirs := [''/home/u/.local/share/mkcert'']\<rparr>,
      trace = [EMkdirAll ''/home/u/.local/share/mkcert'', ELoadCA]\<rparr>"

section \<open>Properties\<close>

lemmas run_defs = main_def Run_def prepare_def dispatch_def issue_def install_def uninstall_def
  check_def emit_def start_def Let_def

lemmas host_defs = unix_host_def windows_host_def bare_host_def override_host_def
  readonly_host_def noauthority_host_def example_ParseIP_def fresh_sys_def trusting_sys_def

subsection \<open>The matcher computes the words of the expression\<close>

lemma nullable_lang: "nullable r \<longleftrightarrow> [] \<in> lang ok r"
  by (induction r) (auto intro: kleene_Nil)

lemma kleene_Cons_dest:
  "x \<in> kleene L \<Longrightarrow> x = c # s \<Longrightarrow> \<exists>u v. s = u @ v \<and> c # u \<in> L \<and> v \<in> kleene L"
proof (induction arbitrary: s rule: kleene.induct)
  case kleene_Nil
  then show ?case by simp
next
  case (kleene_step u v)
  show ?case
  proof (cases u)
    case Nil
    with kleene_step show ?thesis by simp
  next
    case (Cons a u')
    with kleene_step.prems have "a = c" and "s = u' @ v" by simp_all
    with Cons kleene_step.hyps show ?thesis by blast
  qed
qed

lemma kleene_Cons:
  "c # s \<in> kleene L \<longleftrightarrow> (\<exists>u v. s = u @ v \<and> c # u \<in> L \<and> v \<in> kleene L)"
proof
  assume "c # s \<in> kleene L"
  then show "\<exists>u v. s = u @ v \<and> c # u \<in> L \<and> v \<in> kleene L"
    by (rule kleene_Cons_dest) simp
next
  assume "\<exists>u v. s = u @ v \<and> c # u \<in> L \<and> v \<in> kleene L"
  then obtain u v where "s = u @ v" "c # u \<in> L" "v \<in> kleene L" by blast
  then show "c # s \<in> kleene L"
    using kleene_step [of "c # u" L v] by simp
qed

lemma deriv_lang: "s \<in> lang ok (deriv ok c r) \<longleftrightarrow> c # s \<in> lang ok r"
proof (induction r arbitrary: s)
  case (Seq r1 r2)
  show ?case
    by (auto simp: Seq nullable_lang [of r1 ok] Cons_eq_append_conv)
next
  case (Star r)
  show ?case
    by (simp add: Star kleene_Cons)
qed auto

lemma matches_lang: "matches ok r s \<longleftrightarrow> s \<in> lang ok r"
  by (induction s arbitrary: r) (simp_all add: nullable_lang deriv_lang)

lemma kleene_atoms: "s \<in> kleene {[c] | c. P c} \<longleftrightarrow> list_all P s"
proof (induction s)
  case Nil
  show ?case by (simp add: kleene_Nil)
next
  case (Cons a s)
  show ?case by (auto simp: kleene_Cons Cons)
qed

lemma Seq_Atom_lang:
  "x \<in> lang ok (Seq (Atom a) r) \<longleftrightarrow> (\<exists>c t. x = c # t \<and> ok a c \<and> t \<in> lang ok r)"
proof
  assume "x \<in> lang ok (Seq (Atom a) r)"
  then show "\<exists>c t. x = c # t \<and> ok a c \<and> t \<in> lang ok r" by auto
next
  assume "\<exists>c t. x = c # t \<and> ok a c \<and> t \<in> lang ok r"
  then obtain c t where "x = [c] @ t" and "ok a c" and "t \<in> lang ok r" by auto
  then have "\<exists>u v. x = u @ v \<and> u \<in> lang ok (Atom a) \<and> v \<in> lang ok r"
    by (intro exI [of _ "[c]"] exI [of _ t]) simp
  then show "x \<in> lang ok (Seq (Atom a) r)" by simp
qed

lemma Seq_Opt_lang:
  "x \<in> lang ok (Seq (Opt p) r) \<longleftrightarrow> x \<in> lang ok r \<or> x \<in> lang ok (Seq p r)"
proof
  assume "x \<in> lang ok (Seq (Opt p) r)"
  then show "x \<in> lang ok r \<or> x \<in> lang ok (Seq p r)" by auto
next
  assume "x \<in> lang ok r \<or> x \<in> lang ok (Seq p r)"
  then show "x \<in> lang ok (Seq (Opt p) r)"
  proof
    assume "x \<in> lang ok r"
    then have "\<exists>u v. x = u @ v \<and> u \<in> lang ok (Opt p) \<and> v \<in> lang ok r"
      by (intro exI [of _ "[]"] exI [of _ x]) simp
    then show ?thesis by simp
  next
    assume "x \<in> lang ok (Seq p r)"
    then show ?thesis by auto
  qed
qed

lemma Seq_Star_Atom_lang:
  "x \<in> lang ok (Seq (Star (Atom a)) (Atom b)) \<longleftrightarrow>
     (\<exists>m d. x = m @ [d] \<and> list_all (ok a) m \<and> ok b d)"
  by (auto simp: kleene_atoms)

subsection \<open>What the hostname pattern accepts\<close>

lemma label_class: "atom_match True labelClass r \<longleftrightarrow> label_rune r"
  by (auto simp: atom_match_def foldsASCII_def label_rune_def labelClass_def)

lemma dotted_class: "atom_match True dottedClass r \<longleftrightarrow> label_rune r \<or> r = 0x2E"
  by (auto simp: atom_match_def foldsASCII_def label_rune_def dottedClass_def)

lemma dotted_class_fun: "atom_match True dottedClass = (\<lambda>r. label_rune r \<or> r = 0x2E)"
  by (rule ext) (rule dotted_class)

lemma star_lit: "atom_match True (Lit CHR ''*'') r \<longleftrightarrow> r = 0x2A"
  by (auto simp: atom_match_def foldsASCII_def)

lemma dot_lit: "atom_match True (Lit CHR ''.'') r \<longleftrightarrow> r = 0x2E"
  by (auto simp: atom_match_def foldsASCII_def)

lemma dot_no_label: "\<not> label_rune 0x2E"
  by (simp add: label_rune_def)

lemma body_lang:
  "b \<in> lang (atom_match True)
         (Seq (Atom labelClass) (Opt (Seq (Star (Atom dottedClass)) (Atom labelClass))))
     \<longleftrightarrow> name_body b"
proof -
  let ?D = "\<lambda>r. label_rune r \<or> r = 0x2E"
  have tail: "t \<in> lang (atom_match True) (Opt (Seq (Star (Atom dottedClass)) (Atom labelClass)))
      \<longleftrightarrow> t = [] \<or> (\<exists>m d. t = m @ [d] \<and> list_all ?D m \<and> label_rune d)" for t
    unfolding lang.simps(6) insert_iff Seq_Star_Atom_lang
    by (simp add: label_class dotted_class_fun)
  have mem: "b \<in> lang (atom_match True)
         (Seq (Atom labelClass) (Opt (Seq (Star (Atom dottedClass)) (Atom labelClass))))
     \<longleftrightarrow> (\<exists>c t. b = c # t \<and> label_rune c \<and>
            (t = [] \<or> (\<exists>m d. t = m @ [d] \<and> list_all ?D m \<and> label_rune d)))"
    unfolding Seq_Atom_lang tail by (simp add: label_class)
  show ?thesis
  proof
    assume "name_body b"
    then have ne: "b \<noteq> []" and all: "list_all ?D b" and h: "hd b \<noteq> 0x2E" and l: "last b \<noteq> 0x2E"
      by (simp_all add: name_body_def)
    from ne obtain c t where b: "b = c # t" by (cases b) auto
    from b all h have c: "label_rune c" by simp
    show "b \<in> lang (atom_match True)
         (Seq (Atom labelClass) (Opt (Seq (Star (Atom dottedClass)) (Atom labelClass))))"
    proof (cases "t = []")
      case True
      with b c show ?thesis unfolding mem by simp
    next
      case False
      then have t: "t = butlast t @ [last t]" by simp
      from False b l all have "label_rune (last t)"
        by (auto simp: list_all_iff)
      moreover from b all have "list_all ?D (butlast t)"
        by (auto simp: list_all_iff dest: in_set_butlastD)
      ultimately show ?thesis unfolding mem using b c t by blast
    qed
  next
    assume "b \<in> lang (atom_match True)
         (Seq (Atom labelClass) (Opt (Seq (Star (Atom dottedClass)) (Atom labelClass))))"
    then obtain c t where b: "b = c # t" and c: "label_rune c"
      and t: "t = [] \<or> (\<exists>m d. t = m @ [d] \<and> list_all ?D m \<and> label_rune d)"
      unfolding mem by blast
    from c have c': "c \<noteq> 0x2E" using dot_no_label by auto
    from t show "name_body b"
    proof
      assume "t = []"
      with b c c' show ?thesis by (simp add: name_body_def)
    next
      assume "\<exists>m d. t = m @ [d] \<and> list_all ?D m \<and> label_rune d"
      then obtain m d where "t = m @ [d]" "list_all ?D m" "label_rune d" by blast
      moreover from this have "d \<noteq> 0x2E" using dot_no_label by auto
      ultimately show ?thesis using b c c' by (simp add: name_body_def)
    qed
  qed
qed

lemma take2_conv:
  "(take 2 rs = [a, b] \<and> P (drop 2 rs)) \<longleftrightarrow> (\<exists>v. rs = a # b # v \<and> P v)"
proof (cases rs)
  case Nil
  then show ?thesis by simp
next
  case (Cons x xs)
  then show ?thesis by (cases xs) (auto simp: numeral_2_eq_2)
qed

lemma wildcard_lang:
  "x \<in> lang (atom_match True) (Seq (Seq (Atom (Lit CHR ''*'')) (Atom (Lit CHR ''.''))) r)
     \<longleftrightarrow> (\<exists>v. x = 0x2A # 0x2E # v \<and> v \<in> lang (atom_match True) r)"
proof -
  have pre: "u \<in> lang (atom_match True) (Seq (Atom (Lit CHR ''*'')) (Atom (Lit CHR ''.'')))
      \<longleftrightarrow> u = [0x2A, 0x2E]" for u
    unfolding Seq_Atom_lang by (auto simp: star_lit dot_lit)
  show ?thesis
    unfolding lang.simps(5) [of _ "Seq _ _"] mem_Collect_eq pre by auto
qed

lemma hostnameRegexp_lang:
  "rs \<in> lang (atom_match (foldCase hostnameRegexp)) (expr hostnameRegexp) \<longleftrightarrow> hostname_shape rs"
  unfolding hostnameRegexp_def regexp.simps Seq_Opt_lang wildcard_lang body_lang
    hostname_shape_def take2_conv ..

lemma MatchString_hostname: "MatchString hostnameRegexp s \<longleftrightarrow> hostname_shape (runes s)"
  by (simp add: MatchString_def matches_lang hostnameRegexp_lang)

lemma validName_iff:
  "validName h name \<longleftrightarrow> ParseIP h name \<or> hostname_shape (runes name)"
  by (simp add: validName_def MatchString_hostname)

lemma shape_examples:
  "hostname_shape (runes ''-foo'')" "hostname_shape (runes ''foo_bar..baz'')"
  "\<not> hostname_shape (runes [])" "\<not> hostname_shape (runes ''exa mple.com'')"
  "hostname_shape (runes ''*.example.com'')" "hostname_shape (runes ''example.com'')"
  by (simp_all add: hostname_shape_def name_body_def label_rune_def DecodeRuneInString_def)

lemma folded_examples:
  "runes [CHR 0xE2, CHR 0x84, CHR 0xAA] = [0x212A]"
  "runes [CHR 0xC5, CHR 0xBF] = [0x17F]"
  "MatchString hostnameRegexp [CHR 0xE2, CHR 0x84, CHR 0xAA]"
  "MatchString hostnameRegexp [CHR 0xC5, CHR 0xBF]"
  by (simp_all add: MatchString_hostname hostname_shape_def name_body_def label_rune_def
      DecodeRuneInString_def utf8_first_def)

lemma pattern_examples:
  "MatchString hostnameRegexp ''-foo''" "MatchString hostnameRegexp ''foo_bar..baz''"
  "MatchString hostnameRegexp ''example.com''"
  unfolding MatchString_hostname by (rule shape_examples)+

lemma ParseIP_examples:
  "\<not> ParseIP unix_host ''-foo''" "\<not> ParseIP unix_host ''foo_bar..baz''"
  "\<not> ParseIP unix_host []" "\<not> ParseIP unix_host ''exa mple.com''"
  "ParseIP unix_host ''127.0.0.1''"
  by (simp_all add: unix_host_def example_ParseIP_def)

lemmas eval_defs = run_defs host_defs validName_def pattern_examples getCAROOT_def
  Join_model_def Clean_model_def

subsection \<open>The loop over the names\<close>

lemma validate_Some:
  "validate h names = Some bad \<longleftrightarrow>
     (\<exists>pre post. names = pre @ bad # post \<and> list_all (validName h) pre \<and> \<not> validName h bad)"
proof (induction names)
  case Nil
  show ?case by simp
next
  case (Cons n ns)
  show ?case
  proof (cases "validName h n")
    case True
    have "(\<exists>pre post. n # ns = pre @ bad # post \<and> list_all (validName h) pre \<and> \<not> validName h bad)
      \<longleftrightarrow> (\<exists>pre post. ns = pre @ bad # post \<and> list_all (validName h) pre \<and> \<not> validName h bad)"
      (is "?L \<longleftrightarrow> ?R")
    proof
      assume ?L
      then obtain pre post where *: "n # ns = pre @ bad # post" "list_all (validName h) pre"
        "\<not> validName h bad" by blast
      with True obtain pre' where "pre = n # pre'" by (cases pre) auto
      with * show ?R by auto
    next
      assume ?R
      then obtain pre post where "ns = pre @ bad # post" "list_all (validName h) pre"
        "\<not> validName h bad" by blast
      with True have "n # ns = (n # pre) @ bad # post \<and> list_all (validName h) (n # pre) \<and>
        \<not> validName h bad" by simp
      then show ?L by blast
    qed
    with True Cons show ?thesis by simp
  next
    case False
    have "(\<exists>pre post. n # ns = pre @ bad # post \<and> list_all (validName h) pre \<and> \<not> validName h bad)
      \<longleftrightarrow> n = bad" (is "?L \<longleftrightarrow> _")
    proof
      assume ?L
      then obtain pre post where *: "n # ns = pre @ bad # post" "list_all (validName h) pre"
        by blast
      with False show "n = bad" by (cases pre) auto
    next
      assume "n = bad"
      with False have "n # ns = [] @ bad # ns \<and> list_all (validName h) [] \<and> \<not> validName h bad"
        by simp
      then show ?L by blast
    qed
    with False show ?thesis by auto
  qed
qed

lemma validate_None: "validate h names = None \<longleftrightarrow> list_all (validName h) names"
  by (induction names) auto

subsection \<open>The names that pass\<close>

text \<open>
  The grammar of section 4.5 of the specification is not what line 94 accepts. The
  pattern only keeps a dot from the first and the last place of the name: \<^verbatim>\<open>-foo\<close>,
  whose label starts with a hyphen, and \<^verbatim>\<open>foo_bar..baz\<close>, which has an empty label, are
  not IP literals, are not hostnames of that grammar, and pass; run with these two names
  the program issues a certificate for them.
\<close>

theorem hostname_grammar_counterexample:
  "validName unix_host ''-foo'' \<and> \<not> ParseIP unix_host ''-foo'' \<and> \<not> spec_hostname ''-foo'' \<and>
   validName unix_host ''foo_bar..baz'' \<and> \<not> ParseIP unix_host ''foo_bar..baz'' \<and>
   \<not> spec_hostname ''foo_bar..baz'' \<and>
   main unix_host False False [''-foo'', ''foo_bar..baz''] trusting_sys =
     (None,
      trusting_sys\<lparr>dirs := [''/home/u/.local/share/mkcert''],
                    issued := [[''-foo'', ''foo_bar..baz'']]\<rparr>,
      [EMkdirAll ''/home/u/.local/share/mkcert'', ELoadCA, EVerify,
       EMakeCert [''-foo'', ''foo_bar..baz'']])"
proof -
  have v: "validName unix_host ''-foo''" "validName unix_host ''foo_bar..baz''"
    unfolding validName_iff using shape_examples by blast+
  have p: "\<not> ParseIP unix_host ''-foo''" "\<not> ParseIP unix_host ''foo_bar..baz''"
    by (rule ParseIP_examples)+
  have g: "\<not> spec_hostname ''-foo''" "\<not> spec_hostname ''foo_bar..baz''"
    by (simp_all add: spec_hostname_def spec_label_def spec_alnum_def)
  have m: "main unix_host False False [''-foo'', ''foo_bar..baz''] trusting_sys =
     (None,
      trusting_sys\<lparr>dirs := [''/home/u/.local/share/mkcert''],
                    issued := [[''-foo'', ''foo_bar..baz'']]\<rparr>,
      [EMkdirAll ''/home/u/.local/share/mkcert'', ELoadCA, EVerify,
       EMakeCert [''-foo'', ''foo_bar..baz'']])"
    by (simp add: eval_defs)
  from v p g m show ?thesis by (intro conjI)
qed

text \<open>
  C1, amended. A name passes if and only if \<^verbatim>\<open>net.ParseIP\<close> accepts it or its runes are,
  after an optional leading \<^verbatim>\<open>*.\<close>, a non-empty sequence of ASCII letters, digits,
  underscores, hyphens and dots (and the runes \<^verbatim>\<open>U+017F\<close> and \<^verbatim>\<open>U+212A\<close>, which fold to
  \<^verbatim>\<open>s\<close> and \<^verbatim>\<open>k\<close>) that neither starts nor ends with a dot. A hyphen or an underscore
  may start or end a label, and dots may follow each other. When the names before it
  pass and a name does not, the run ends there with the fatal error that carries this
  name, in the state it was in: nothing is issued.
\<close>

theorem hostname_pattern_accepts:
  "(validName h name \<longleftrightarrow> ParseIP h name \<or> hostname_shape (runes name)) \<and>
   (list_all (validName h) pre \<and> \<not> validName h bad \<longrightarrow>
      issue h (pre @ bad # post) s = Fatal (InvalidName bad) s)"
proof -
  have "validate h (pre @ bad # post) = Some bad"
    if "list_all (validName h) pre" "\<not> validName h bad"
    using that validate_Some [of h "pre @ bad # post" bad] by blast
  then show ?thesis
    by (auto simp: validName_iff issue_def)
qed

theorem hostname_pattern_accepts_witness:
  "validName unix_host ''-foo'' \<and> validName unix_host ''foo_bar..baz'' \<and>
   validName unix_host ''127.0.0.1'' \<and> validName unix_host ''*.example.com'' \<and>
   \<not> validName unix_host [] \<and> \<not> validName unix_host ''exa mple.com'' \<and>
   list_all (validName unix_host) [''example.com''] \<and>
   issue unix_host ([''example.com''] @ ''exa mple.com'' # [''-foo'']) prepared
     = Fatal (InvalidName ''exa mple.com'') prepared"
proof -
  note V = hostname_pattern_accepts [THEN conjunct1, of unix_host]
  note F = hostname_pattern_accepts [THEN conjunct2, rule_format, of unix_host]
  have a1: "validName unix_host ''-foo''"
    unfolding V using shape_examples(1) by blast
  have a2: "validName unix_host ''foo_bar..baz''"
    unfolding V using shape_examples(2) by blast
  have a3: "validName unix_host ''127.0.0.1''"
    unfolding V using ParseIP_examples(5) by blast
  have a4: "validName unix_host ''*.example.com''"
    unfolding V using shape_examples(5) by blast
  have a5: "\<not> validName unix_host []"
    unfolding V using shape_examples(3) ParseIP_examples(3) by blast
  have a6: "\<not> validName unix_host ''exa mple.com''"
    unfolding V using shape_examples(4) ParseIP_examples(4) by blast
  have a7: "validName unix_host ''example.com''"
    unfolding V using shape_examples(6) by blast
  from a7 have a8: "list_all (validName unix_host) [''example.com'']" by simp
  from a8 a6 have a9:
    "issue unix_host ([''example.com''] @ ''exa mple.com'' # [''-foo'']) prepared
     = Fatal (InvalidName ''exa mple.com'') prepared"
    by (intro F conjI)
  from a1 a2 a3 a4 a5 a6 a8 a9 show ?thesis by (intro conjI)
qed

subsection \<open>The storage root\<close>

lemma getCAROOT_windows:
  "GOOS h = ''windows'' \<Longrightarrow> Getenv h ''CAROOT'' = [] \<Longrightarrow>
     getCAROOT h = Join h [Getenv h ''LocalAppData'', ''mkcert'']"
  by (simp add: getCAROOT_def)

lemma getCAROOT_darwin_unset:
  "GOOS h = ''darwin'' \<Longrightarrow> Getenv h ''CAROOT'' = [] \<Longrightarrow> Getenv h ''HOME'' = [] \<Longrightarrow>
     getCAROOT h = []"
  by (simp add: getCAROOT_def)

lemma getCAROOT_unix_unset:
  "GOOS h \<noteq> ''windows'' \<Longrightarrow> GOOS h \<noteq> ''darwin'' \<Longrightarrow> Getenv h ''CAROOT'' = [] \<Longrightarrow>
     Getenv h ''XDG_DATA_HOME'' = [] \<Longrightarrow> Getenv h ''HOME'' = [] \<Longrightarrow> getCAROOT h = []"
  by (simp add: getCAROOT_def)

text \<open>
  C2. On Windows with neither \<^verbatim>\<open>CAROOT\<close> nor \<^verbatim>\<open>LocalAppData\<close> set, the specification
  has \<^verbatim>\<open>getCAROOT\<close> return the empty path and the run end with the fatal error of line 52.
  The code does not: the Windows branch (line 116) lacks the test for an empty variable
  that the macOS and Unix branches make (lines 119 and 127, \<open>getCAROOT_darwin_unset\<close>
  and \<open>getCAROOT_unix_unset\<close>), so the empty value reaches \<^verbatim>\<open>filepath.Join\<close>, which
  ignores it. On such a host \<^verbatim>\<open>getCAROOT\<close> returns the relative path \<^verbatim>\<open>mkcert\<close>, and a
  run without arguments creates that directory, loads the authority and returns normally.
\<close>

theorem windows_unset_is_resolved:
  "GOOS windows_host = ''windows'' \<and> Getenv windows_host ''CAROOT'' = [] \<and>
   Getenv windows_host ''LocalAppData'' = [] \<and>
   getCAROOT windows_host = ''mkcert'' \<and>
   main windows_host False False [] fresh_sys =
     (None, fresh_sys\<lparr>dirs := [''mkcert'']\<rparr>,
      [EMkdirAll ''mkcert'', ELoadCA, EVerify, ELog WarnNotInstalled, ELog WarnRunInstall,
       ELog UsageText])"
  by (simp add: eval_defs)

text \<open>
  C7. When the variable \<^verbatim>\<open>CAROOT\<close> is set to a non-empty path, \<^verbatim>\<open>getCAROOT\<close> returns
  that path as it is: nothing is joined to it and nothing is looked up, whatever the
  operating system and the other variables are.
\<close>

theorem getCAROOT_override:
  "Getenv h ''CAROOT'' \<noteq> [] \<Longrightarrow> getCAROOT h = Getenv h ''CAROOT''"
  by (simp add: getCAROOT_def)

theorem getCAROOT_override_witness:
  "Getenv override_host ''CAROOT'' \<noteq> [] \<and> getCAROOT override_host = ''/srv/ca''"
  using getCAROOT_override [of override_host]
  by (simp add: override_host_def unix_host_def)

subsection \<open>The mode flags\<close>

text \<open>
  C6. With both \<^verbatim>\<open>-install\<close> and \<^verbatim>\<open>-uninstall\<close> set, the program ends with the fatal
  error of line 26 before anything else happens: for every host, every list of
  positional arguments and every outside world, no call has left the process (the trace
  is empty: no directory created, no authority loaded, no trust store touched) and the
  world is the one the process started in.
\<close>

theorem both_flags_fatal:
  "main h True True args w = (Some ConflictingModes, w, [])"
  by (simp add: main_def)

subsection \<open>\<^verbatim>\<open>check\<close>, \<^verbatim>\<open>install\<close> and \<^verbatim>\<open>uninstall\<close>\<close>

lemma check_Ret:
  "check h s = Ret b s1 \<Longrightarrow>
     recv s1 = recv s \<and> world s1 = world s \<and>
     trace s1 = trace s @ (if ignoreCheckFailure (recv s) then [] else [EVerify])"
  by (auto simp: check_def emit_def split: if_splits option.splits)

text \<open>
  C4. In every state whose flag \<^verbatim>\<open>ignoreCheckFailure\<close> is set, \<^verbatim>\<open>check\<close> returns true
  and leaves the state as it is (\<^verbatim>\<open>Verify\<close> is not called, whatever it would return).
  \<^verbatim>\<open>install\<close> sets the flag once the platform installer has returned, so it never ends
  with the fatal error of line 147, from any state and on any host.
\<close>

theorem override_forces_check:
  "(ignoreCheckFailure (recv s) \<longrightarrow> check h s = Ret True s) \<and>
   (\<forall>s'. install h s \<noteq> Fatal InstallingFailed s')"
  by (auto simp: install_def check_def emit_def Let_def
      split: if_splits option.splits prod.splits outcome.splits)

theorem override_forces_check_witness:
  "ignoreCheckFailure (recv (prepared\<lparr>recv := (recv prepared)\<lparr>ignoreCheckFailure := True\<rparr>\<rparr>)) \<and>
   \<not> Verify unix_host 1 (world prepared) \<and>
   check unix_host (prepared\<lparr>recv := (recv prepared)\<lparr>ignoreCheckFailure := True\<rparr>\<rparr>) =
     Ret True (prepared\<lparr>recv := (recv prepared)\<lparr>ignoreCheckFailure := True\<rparr>\<rparr>)"
  using override_forces_check
    [of "prepared\<lparr>recv := (recv prepared)\<lparr>ignoreCheckFailure := True\<rparr>\<rparr>" unix_host]
  by (simp add: prepared_def host_defs)

text \<open>
  C5. When \<^verbatim>\<open>check\<close> returns true at the start of \<^verbatim>\<open>install\<close>, \<^verbatim>\<open>install\<close> returns at
  once: the platform installer is not called, the receiver (the flag
  \<^verbatim>\<open>ignoreCheckFailure\<close> included) and the outside world are unchanged, and the only
  call made is the \<^verbatim>\<open>Verify\<close> of that \<^verbatim>\<open>check\<close> (none when the flag was already set).
\<close>

theorem install_idempotent:
  "check h s = Ret True s1 \<Longrightarrow>
     install h s = Ret () s1 \<and> recv s1 = recv s \<and> world s1 = world s \<and>
     trace s1 = trace s @ (if ignoreCheckFailure (recv s) then [] else [EVerify])"
  using check_Ret [of h s True s1] by (simp add: install_def)

theorem install_idempotent_witness:
  "check unix_host (prepared\<lparr>world := trusting_sys\<rparr>) =
     Ret True (emit EVerify (prepared\<lparr>world := trusting_sys\<rparr>)) \<and>
   install unix_host (prepared\<lparr>world := trusting_sys\<rparr>) =
     Ret () (emit EVerify (prepared\<lparr>world := trusting_sys\<rparr>)) \<and>
   world (emit EVerify (prepared\<lparr>world := trusting_sys\<rparr>)) = trusting_sys"
proof -
  have c: "check unix_host (prepared\<lparr>world := trusting_sys\<rparr>) =
      Ret True (emit EVerify (prepared\<lparr>world := trusting_sys\<rparr>))"
    by (simp add: check_def prepared_def host_defs)
  from install_idempotent [OF c] c show ?thesis
    by (simp add: prepared_def)
qed

lemma uninstall_run:
  "main unix_host False True [] trusting_sys =
     (None, trusting_sys\<lparr>dirs := [''/home/u/.local/share/mkcert''], registered := False\<rparr>,
      [EMkdirAll ''/home/u/.local/share/mkcert'', ELoadCA, EUninstallPlatform,
       ELog NowUninstalled])"
  by (simp add: eval_defs)

text \<open>
  C8. \<^verbatim>\<open>uninstall\<close> calls the platform uninstaller first and in every state, and when
  that call returns it reports success and returns; it makes no other call. A run in
  uninstall mode never calls \<^verbatim>\<open>Verify\<close>, before or after: once the storage root, its
  directory and the authority are there, the platform uninstaller is called whatever the
  trust store holds, and a run that returns ends with the success message.
\<close>

theorem uninstall_unconditional:
  "trace (reached (uninstall h s)) =
     trace s @ EUninstallPlatform #
       (if fst (uninstallPlatform h (recv s) (world s)) then [ELog NowUninstalled] else []) \<and>
   world (reached (uninstall h s)) = snd (uninstallPlatform h (recv s) (world s)) \<and>
   recv (reached (uninstall h s)) = recv s \<and>
   (fst (uninstallPlatform h (recv s) (world s)) \<longrightarrow>
      uninstall h s = Ret () (reached (uninstall h s))) \<and>
   (main h False True args w = (r, w', t) \<longrightarrow>
      EVerify \<notin> set t \<and>
      (r \<noteq> Some NoCAROOT \<and> r \<noteq> Some MkdirFailed \<and> r \<noteq> Some LoadCAFailed \<longrightarrow>
         EUninstallPlatform \<in> set t) \<and>
      (r = None \<longrightarrow> last t = ELog NowUninstalled))"
  by (auto simp: run_defs split: if_splits option.splits prod.splits outcome.splits)

theorem uninstall_unconditional_witness:
  "fst (uninstallPlatform unix_host (recv prepared) (world prepared)) \<and>
   uninstall unix_host prepared = Ret () (reached (uninstall unix_host prepared)) \<and>
   trace (reached (uninstall unix_host prepared)) =
     [EMkdirAll ''/home/u/.local/share/mkcert'', ELoadCA, EUninstallPlatform,
      ELog NowUninstalled] \<and>
   main unix_host False True [] trusting_sys =
     (None, trusting_sys\<lparr>dirs := [''/home/u/.local/share/mkcert''], registered := False\<rparr>,
      [EMkdirAll ''/home/u/.local/share/mkcert'', ELoadCA, EUninstallPlatform,
       ELog NowUninstalled]) \<and>
   EVerify \<notin> set [EMkdirAll ''/home/u/.local/share/mkcert'', ELoadCA, EUninstallPlatform,
       ELog NowUninstalled]"
proof -
  have f: "fst (uninstallPlatform unix_host (recv prepared) (world prepared))"
    by (simp add: unix_host_def)
  note U = uninstall_unconditional [of unix_host prepared "[]" trusting_sys None
      "trusting_sys\<lparr>dirs := [''/home/u/.local/share/mkcert''], registered := False\<rparr>"
      "[EMkdirAll ''/home/u/.local/share/mkcert'', ELoadCA, EUninstallPlatform,
       ELog NowUninstalled]"]
  from U f uninstall_run show ?thesis
    by (simp add: prepared_def)
qed

subsection \<open>\<^verbatim>\<open>Run\<close>\<close>

lemma prepared_unix: "prepare unix_host (start False False fresh_sys) = Ret () prepared"
  by (simp add: eval_defs prepared_def)

lemma check_prepared: "check unix_host prepared = Ret False (emit EVerify prepared)"
  by (simp add: check_def prepared_def host_defs)

lemma validate_example: "validate unix_host [''example.com''] = None"
  by (simp add: validName_def pattern_examples)

text \<open>
  C9. With neither mode flag set, a \<^verbatim>\<open>check\<close> that returns false only prints the two
  warning lines: the run goes on with line 70 exactly as it would otherwise. It can then
  end fatally only because a name does not pass or because the issuer fails, never
  because the authority is untrusted; with a non-empty list of names that all pass, the
  issuer is called with them. (With no names, line 70 prints the usage text and returns.)
\<close>

theorem untrusted_is_advisory:
  assumes "\<not> installMode (recv s0)" and "\<not> uninstallMode (recv s0)"
    and "prepare h s0 = Ret () s" and "check h s = Ret False s1"
  shows "Run h args s0 =
           issue h args (emit (ELog WarnRunInstall) (emit (ELog WarnNotInstalled) s1)) \<and>
         (\<forall>e s'. Run h args s0 = Fatal e s' \<longrightarrow>
            (\<exists>bad. e = InvalidName bad \<and> validate h args = Some bad) \<or>
            (e = MakeCertFailed \<and> validate h args = None \<and> args \<noteq> [])) \<and>
         (args \<noteq> [] \<and> validate h args = None \<longrightarrow>
            EMakeCert args \<in> set (trace (reached (Run h args s0))))"
proof -
  from assms(1,2,3) have modes: "\<not> installMode (recv s)" "\<not> uninstallMode (recv s)"
    by (auto simp: prepare_def emit_def Let_def split: if_splits prod.splits option.splits)
  with assms(3,4) have run: "Run h args s0 =
      issue h args (emit (ELog WarnRunInstall) (emit (ELog WarnNotInstalled) s1))"
    by (simp add: Run_def dispatch_def)
  show ?thesis
    unfolding run
    by (auto simp: issue_def emit_def Let_def split: option.splits prod.splits if_splits)
qed

theorem untrusted_is_advisory_witness:
  "\<not> installMode (recv (start False False fresh_sys)) \<and>
   \<not> uninstallMode (recv (start False False fresh_sys)) \<and>
   prepare unix_host (start False False fresh_sys) = Ret () prepared \<and>
   check unix_host prepared = Ret False (emit EVerify prepared) \<and>
   [''example.com''] \<noteq> [] \<and> validate unix_host [''example.com''] = None \<and>
   Run unix_host [''example.com''] (start False False fresh_sys) =
     issue unix_host [''example.com'']
       (emit (ELog WarnRunInstall) (emit (ELog WarnNotInstalled) (emit EVerify prepared))) \<and>
   EMakeCert [''example.com''] \<in>
     set (trace (reached (Run unix_host [''example.com''] (start False False fresh_sys))))"
proof -
  have m: "\<not> installMode (recv (start False False fresh_sys))"
    "\<not> uninstallMode (recv (start False False fresh_sys))"
    by (simp_all add: start_def)
  note T = untrusted_is_advisory [OF m prepared_unix check_prepared, of "[''example.com'']"]
  have ne: "[''example.com''] \<noteq> ([] :: string list)" by simp
  from T have r: "Run unix_host [''example.com''] (start False False fresh_sys) =
     issue unix_host [''example.com'']
       (emit (ELog WarnRunInstall) (emit (ELog WarnNotInstalled) (emit EVerify prepared)))"
    by (rule conjunct1)
  from T ne validate_example have e: "EMakeCert [''example.com''] \<in>
     set (trace (reached (Run unix_host [''example.com''] (start False False fresh_sys))))"
    by blast
  from m prepared_unix check_prepared ne validate_example r e show ?thesis
    by (intro conjI)
qed

text \<open>
  "At most one of install, uninstall and check-then-issue in one run" (section 5 of the
  specification) fails for \<^verbatim>\<open>mkcert -install example.com\<close>: line 59 returns after the
  install only when there are no names, so this run calls the platform installer, which
  registers the authority, and then the issuer, which issues the certificate.
\<close>

theorem one_activity_counterexample:
  "main unix_host True False [''example.com''] fresh_sys =
     (None,
      fresh_sys\<lparr>dirs := [''/home/u/.local/share/mkcert''], registered := True,
                 issued := [[''example.com'']]\<rparr>,
      [EMkdirAll ''/home/u/.local/share/mkcert'', ELoadCA, EVerify, EInstallPlatform,
       ELog NowInstalled, EMakeCert [''example.com'']]) \<and>
   EInstallPlatform \<in> set (snd (snd (main unix_host True False [''example.com''] fresh_sys))) \<and>
   EMakeCert [''example.com'']
     \<in> set (snd (snd (main unix_host True False [''example.com''] fresh_sys)))"
  by (simp add: eval_defs)

lemma install_and_issue_run:
  "main unix_host True False [''example.com'', ''127.0.0.1''] trusting_sys =
     (None,
      trusting_sys\<lparr>dirs := [''/home/u/.local/share/mkcert''],
                    issued := [[''example.com'', ''127.0.0.1'']]\<rparr>,
      [EMkdirAll ''/home/u/.local/share/mkcert'', ELoadCA, EVerify,
       EMakeCert [''example.com'', ''127.0.0.1'']])"
  by (simp add: eval_defs)

lemma install_run:
  "main unix_host True False [] fresh_sys =
     (None, fresh_sys\<lparr>dirs := [''/home/u/.local/share/mkcert''], registered := True\<rparr>,
      [EMkdirAll ''/home/u/.local/share/mkcert'', ELoadCA, EVerify, EInstallPlatform,
       ELog NowInstalled])"
  by (simp add: eval_defs)

text \<open>
  C3, amended. In the calls a run makes: the platform uninstaller is called only in
  uninstall mode, and such a run calls neither the platform installer, nor \<^verbatim>\<open>Verify\<close>,
  nor the issuer; the platform installer is called only in install mode; the issuer is
  called only outside uninstall mode, with the whole non-empty list of names. So install
  and uninstall exclude each other and uninstall excludes issuing, but a run in install
  mode with at least one name installs and then issues.
\<close>

theorem main_activities:
  "main h i u args w = (r, w', t) \<Longrightarrow>
    (EUninstallPlatform \<in> set t \<longrightarrow>
       u \<and> \<not> i \<and> EInstallPlatform \<notin> set t \<and> EVerify \<notin> set t \<and> (\<forall>a. EMakeCert a \<notin> set t)) \<and>
    (EInstallPlatform \<in> set t \<longrightarrow> i \<and> \<not> u) \<and>
    (\<forall>a. EMakeCert a \<in> set t \<longrightarrow> a = args \<and> args \<noteq> [] \<and> \<not> u)"
  by (auto simp: run_defs split: if_splits option.splits prod.splits outcome.splits)

theorem main_activities_witness:
  "main unix_host False True [] trusting_sys =
     (None, trusting_sys\<lparr>dirs := [''/home/u/.local/share/mkcert''], registered := False\<rparr>,
      [EMkdirAll ''/home/u/.local/share/mkcert'', ELoadCA, EUninstallPlatform,
       ELog NowUninstalled]) \<and>
   EUninstallPlatform \<in> set [EMkdirAll ''/home/u/.local/share/mkcert'', ELoadCA,
      EUninstallPlatform, ELog NowUninstalled] \<and>
   main unix_host True False [] fresh_sys =
     (None, fresh_sys\<lparr>dirs := [''/home/u/.local/share/mkcert''], registered := True\<rparr>,
      [EMkdirAll ''/home/u/.local/share/mkcert'', ELoadCA, EVerify, EInstallPlatform,
       ELog NowInstalled]) \<and>
   EInstallPlatform \<in> set [EMkdirAll ''/home/u/.local/share/mkcert'', ELoadCA, EVerify,
      EInstallPlatform, ELog NowInstalled] \<and>
   main unix_host True False [''example.com'', ''127.0.0.1''] trusting_sys =
     (None,
      trusting_sys\<lparr>dirs := [''/home/u/.local/share/mkcert''],
                    issued := [[''example.com'', ''127.0.0.1'']]\<rparr>,
      [EMkdirAll ''/home/u/.local/share/mkcert'', ELoadCA, EVerify,
       EMakeCert [''example.com'', ''127.0.0.1'']]) \<and>
   EMakeCert [''example.com'', ''127.0.0.1''] \<in> set [EMkdirAll ''/home/u/.local/share/mkcert'',
      ELoadCA, EVerify, EMakeCert [''example.com'', ''127.0.0.1'']]"
  using main_activities [OF uninstall_run] main_activities [OF install_run]
    main_activities [OF install_and_issue_run] uninstall_run install_run install_and_issue_run
  by simp

lemma unresolved_run:
  "main bare_host False True [] trusting_sys = (Some NoCAROOT, trusting_sys, [])"
  by (simp add: eval_defs)

lemma readonly_run:
  "main readonly_host False True [] trusting_sys =
     (Some MkdirFailed, trusting_sys, [EMkdirAll ''/home/u/.local/share/mkcert''])"
  by (simp add: eval_defs)

lemma prepare_start:
  "prepare h (start i u w) =
     (let root = getCAROOT h;
          m0 = \<lparr>installMode = i, uninstallMode = u, CAROOT = root,
                caCert = None, caKey = None, ignoreCheckFailure = False\<rparr>;
          made = MkdirAll h root w;
          ld = loadCA h m0 (snd made)
      in
        if root = [] then Fatal NoCAROOT \<lparr>recv = m0, world = w, trace = []\<rparr>
        else if \<not> fst made then
          Fatal MkdirFailed \<lparr>recv = m0, world = snd made, trace = [EMkdirAll root]\<rparr>
        else
          (case fst ld of
             None \<Rightarrow>
               Fatal LoadCAFailed \<lparr>recv = m0, world = snd ld, trace = [EMkdirAll root, ELoadCA]\<rparr>
           | Some (c, k) \<Rightarrow>
               Ret () \<lparr>recv = m0\<lparr>caCert := Some c, caKey := Some k\<rparr>,
                       world = snd ld, trace = [EMkdirAll root, ELoadCA]\<rparr>))"
  by (simp add: prepare_def start_def emit_def Let_def split: prod.splits option.splits)

lemma dispatch_appends:
  "(\<exists>d. trace (reached (dispatch h args s)) = trace s @ d) \<and>
   (\<forall>e s'. dispatch h args s = Fatal e s' \<longrightarrow>
      e \<noteq> NoCAROOT \<and> e \<noteq> MkdirFailed \<and> e \<noteq> LoadCAFailed)"
  by (auto simp: dispatch_def install_def uninstall_def check_def emit_def Let_def
      split: if_splits option.splits prod.splits outcome.splits)

lemma issue_appends:
  "(\<exists>d. trace (reached (issue h args s)) = trace s @ d) \<and>
   (\<forall>e s'. issue h args s = Fatal e s' \<longrightarrow>
      e \<noteq> NoCAROOT \<and> e \<noteq> MkdirFailed \<and> e \<noteq> LoadCAFailed)"
  by (auto simp: issue_def emit_def Let_def split: if_splits option.splits prod.splits)

lemma rest_appends:
  assumes "finish (case dispatch h args s of
                     Fatal e s2 \<Rightarrow> Fatal e s2
                   | Ret continue s2 \<Rightarrow> if continue then issue h args s2 else Ret () s2)
           = (r, w', t)"
  shows "(\<exists>rest. t = trace s @ rest) \<and>
         r \<noteq> Some NoCAROOT \<and> r \<noteq> Some MkdirFailed \<and> r \<noteq> Some LoadCAFailed"
proof (cases "dispatch h args s")
  case (Fatal e s2)
  from Fatal dispatch_appends [of h args s] obtain d where "trace s2 = trace s @ d"
    and "e \<noteq> NoCAROOT \<and> e \<noteq> MkdirFailed \<and> e \<noteq> LoadCAFailed" by auto
  moreover from Fatal assms have "t = trace s2" "r = Some e" by simp_all
  ultimately show ?thesis by auto
next
  case (Ret continue s2)
  from Ret dispatch_appends [of h args s] obtain d where d: "trace s2 = trace s @ d" by auto
  show ?thesis
  proof (cases continue)
    case False
    with Ret assms have "t = trace s2" and r: "r = None" by simp_all
    with d have "t = trace s @ d" by simp
    with r show ?thesis by blast
  next
    case True
    with Ret assms have f: "finish (issue h args s2) = (r, w', t)" by simp
    from issue_appends [of h args s2] obtain d' where
      d': "trace (reached (issue h args s2)) = trace s2 @ d'" by auto
    show ?thesis
    proof (cases "issue h args s2")
      case (Ret x s3)
      with f d' have "t = trace s2 @ d'" and r: "r = None" by simp_all
      with d have "t = trace s @ (d @ d')" by simp
      with r show ?thesis by blast
    next
      case (Fatal e s3)
      with f d' have "t = trace s2 @ d'" and r: "r = Some e" by simp_all
      with d have "t = trace s @ (d @ d')" by simp
      moreover from Fatal issue_appends [of h args s2]
      have "e \<noteq> NoCAROOT \<and> e \<noteq> MkdirFailed \<and> e \<noteq> LoadCAFailed" by blast
      ultimately show ?thesis using r by blast
    qed
  qed
qed

lemma rest_uninstall:
  "uninstallMode (recv s) \<Longrightarrow> \<not> installMode (recv s) \<Longrightarrow>
   finish (case dispatch h args s of
             Fatal e s2 \<Rightarrow> Fatal e s2
           | Ret continue s2 \<Rightarrow> if continue then issue h args s2 else Ret () s2)
     = (if fst (uninstallPlatform h (recv s) (world s)) then None
        else Some UninstallPlatformFailed,
        snd (uninstallPlatform h (recv s) (world s)),
        trace s @ EUninstallPlatform #
          (if fst (uninstallPlatform h (recv s) (world s)) then [ELog NowUninstalled] else []))"
  by (simp add: dispatch_def uninstall_def emit_def Let_def split: prod.splits)

lemma noauthority_run:
  "main noauthority_host False True [] trusting_sys =
     (Some LoadCAFailed, trusting_sys\<lparr>dirs := [''probe'', ''/home/u/.local/share/mkcert'']\<rparr>,
      [EMkdirAll ''/home/u/.local/share/mkcert'', ELoadCA])"
  by (simp add: eval_defs)

text \<open>
  C10. In every mode, uninstall included, a run starts the same way. If the storage root
  is unresolved it ends with the fatal error of line 52, having called nothing. Otherwise
  its first call is \<^verbatim>\<open>MkdirAll\<close> on the root: if that fails the run ends there with the
  fatal error of line 54, in the world \<^verbatim>\<open>MkdirAll\<close> left. If not, the second call is
  \<^verbatim>\<open>loadCA\<close>, made on the receiver that holds the root and no authority yet, in the
  world \<^verbatim>\<open>MkdirAll\<close> left: when it fails the run ends there, in the world it left; when
  it yields a certificate and a key, the rest of the run (lines 57-105) is run on the
  receiver that holds them, in the world \<^verbatim>\<open>loadCA\<close> left, and everything it calls comes
  after these two calls. In uninstall mode the platform uninstaller is then called with
  that receiver in that world. So an uninstall cannot run without a resolved root, a
  directory it could create and a loaded authority, and it creates the directory on its
  way.
\<close>

theorem prepare_before_mode:
  fixes h :: "('c, 'k, 'w) host"
  assumes run: "main h i u args w = (r, w', t)" and modes: "\<not> (i \<and> u)"
  shows
    "(let root = getCAROOT h;
          m0 = \<lparr>installMode = i, uninstallMode = u, CAROOT = root,
                caCert = None, caKey = None, ignoreCheckFailure = False\<rparr>;
          made = MkdirAll h root w;
          ld = loadCA h m0 (snd made)
      in
        if root = [] then r = Some NoCAROOT \<and> t = [] \<and> w' = w
        else if \<not> fst made then
          r = Some MkdirFailed \<and> t = [EMkdirAll root] \<and> w' = snd made
        else
          (\<exists>rest. t = EMkdirAll root # ELoadCA # rest) \<and>
          r \<noteq> Some NoCAROOT \<and> r \<noteq> Some MkdirFailed \<and>
          (case fst ld of
             None \<Rightarrow> r = Some LoadCAFailed \<and> t = [EMkdirAll root, ELoadCA] \<and> w' = snd ld
           | Some (c, k) \<Rightarrow>
               r \<noteq> Some LoadCAFailed \<and>
               (r, w', t) =
                 finish
                   (case dispatch h args
                           \<lparr>recv = m0\<lparr>caCert := Some c, caKey := Some k\<rparr>,
                            world = snd ld, trace = [EMkdirAll root, ELoadCA]\<rparr> of
                      Fatal e s2 \<Rightarrow> Fatal e s2
                    | Ret continue s2 \<Rightarrow> if continue then issue h args s2 else Ret () s2) \<and>
               (u \<longrightarrow>
                  w' = snd (uninstallPlatform h (m0\<lparr>caCert := Some c, caKey := Some k\<rparr>) (snd ld)) \<and>
                  t = [EMkdirAll root, ELoadCA, EUninstallPlatform] @
                      (if fst (uninstallPlatform h (m0\<lparr>caCert := Some c, caKey := Some k\<rparr>) (snd ld))
                       then [ELog NowUninstalled] else []))))"
proof -
  define root where "root = getCAROOT h"
  define m0 :: "('c, 'k) mkcert" where
    "m0 = \<lparr>installMode = i, uninstallMode = u, CAROOT = root,
           caCert = None, caKey = None, ignoreCheckFailure = False\<rparr>"
  define made where "made = MkdirAll h root w"
  define ld where "ld = loadCA h m0 (snd made)"
  note P = prepare_start [of h i u w, unfolded Let_def, folded root_def, folded m0_def,
      folded made_def, folded ld_def]
  from run modes have R: "finish (Run h args (start i u w)) = (r, w', t)"
    by (simp add: main_def)
  have goal:
    "if root = [] then r = Some NoCAROOT \<and> t = [] \<and> w' = w
     else if \<not> fst made then
       r = Some MkdirFailed \<and> t = [EMkdirAll root] \<and> w' = snd made
     else
       (\<exists>rest. t = EMkdirAll root # ELoadCA # rest) \<and>
       r \<noteq> Some NoCAROOT \<and> r \<noteq> Some MkdirFailed \<and>
       (case fst ld of
          None \<Rightarrow> r = Some LoadCAFailed \<and> t = [EMkdirAll root, ELoadCA] \<and> w' = snd ld
        | Some (c, k) \<Rightarrow>
            r \<noteq> Some LoadCAFailed \<and>
            (r, w', t) =
              finish
                (case dispatch h args
                        \<lparr>recv = m0\<lparr>caCert := Some c, caKey := Some k\<rparr>,
                         world = snd ld, trace = [EMkdirAll root, ELoadCA]\<rparr> of
                   Fatal e s2 \<Rightarrow> Fatal e s2
                 | Ret continue s2 \<Rightarrow> if continue then issue h args s2 else Ret () s2) \<and>
            (u \<longrightarrow>
               w' = snd (uninstallPlatform h (m0\<lparr>caCert := Some c, caKey := Some k\<rparr>) (snd ld)) \<and>
               t = [EMkdirAll root, ELoadCA, EUninstallPlatform] @
                   (if fst (uninstallPlatform h (m0\<lparr>caCert := Some c, caKey := Some k\<rparr>) (snd ld))
                    then [ELog NowUninstalled] else [])))"
  proof (cases "root = []")
    case True
    with P R show ?thesis by (simp add: Run_def)
  next
    case root: False
    show ?thesis
    proof (cases "fst made")
      case False
      with root P R show ?thesis by (simp add: Run_def)
    next
      case made: True
      show ?thesis
      proof (cases "fst ld")
        case None
        with root made P R have "r = Some LoadCAFailed" "t = [EMkdirAll root, ELoadCA]"
          "w' = snd ld" by (auto simp: Run_def)
        with root made None show ?thesis by simp
      next
        case (Some ck)
        obtain c k where ck: "ck = (c, k)" by (cases ck)
        let ?s = "\<lparr>recv = m0\<lparr>caCert := Some c, caKey := Some k\<rparr>,
                    world = snd ld, trace = [EMkdirAll root, ELoadCA]\<rparr>"
        from root made Some ck P have "prepare h (start i u w) = Ret () ?s" by simp
        with R have F: "finish (case dispatch h args ?s of
                     Fatal e s2 \<Rightarrow> Fatal e s2
                   | Ret continue s2 \<Rightarrow> if continue then issue h args s2 else Ret () s2)
           = (r, w', t)"
          by (simp add: Run_def)
        from rest_appends [OF F] have A: "\<exists>rest. t = EMkdirAll root # ELoadCA # rest"
          and B: "r \<noteq> Some NoCAROOT" "r \<noteq> Some MkdirFailed" "r \<noteq> Some LoadCAFailed"
          by simp_all
        have U: "w' = snd (uninstallPlatform h (m0\<lparr>caCert := Some c, caKey := Some k\<rparr>) (snd ld)) \<and>
               t = [EMkdirAll root, ELoadCA, EUninstallPlatform] @
                   (if fst (uninstallPlatform h (m0\<lparr>caCert := Some c, caKey := Some k\<rparr>) (snd ld))
                    then [ELog NowUninstalled] else [])" if u
        proof -
          from that modes have "uninstallMode (recv ?s)" "\<not> installMode (recv ?s)"
            by (simp_all add: m0_def)
          from rest_uninstall [OF this, of h args] F show ?thesis by simp
        qed
        from root made Some ck A B F U show ?thesis by simp
      qed
    qed
  qed
  then show ?thesis
    unfolding Let_def root_def m0_def made_def ld_def .
qed

theorem prepare_before_mode_witness:
  "main bare_host False True [] trusting_sys = (Some NoCAROOT, trusting_sys, []) \<and>
   getCAROOT bare_host = [] \<and>
   main readonly_host False True [] trusting_sys =
     (Some MkdirFailed, trusting_sys, [EMkdirAll ''/home/u/.local/share/mkcert'']) \<and>
   getCAROOT readonly_host = ''/home/u/.local/share/mkcert'' \<and>
   main noauthority_host False True [] trusting_sys =
     (Some LoadCAFailed, trusting_sys\<lparr>dirs := [''probe'', ''/home/u/.local/share/mkcert'']\<rparr>,
      [EMkdirAll ''/home/u/.local/share/mkcert'', ELoadCA]) \<and>
   getCAROOT noauthority_host = ''/home/u/.local/share/mkcert'' \<and>
   main unix_host False True [] trusting_sys =
     (None, trusting_sys\<lparr>dirs := [''/home/u/.local/share/mkcert''], registered := False\<rparr>,
      [EMkdirAll ''/home/u/.local/share/mkcert'', ELoadCA, EUninstallPlatform,
       ELog NowUninstalled]) \<and>
   getCAROOT unix_host = ''/home/u/.local/share/mkcert''"
proof -
  have m: "\<not> (False \<and> True)" by simp
  note A = prepare_before_mode [OF unresolved_run m]
  note B = prepare_before_mode [OF readonly_run m]
  note C = prepare_before_mode [OF uninstall_run m]
  note D = prepare_before_mode [OF noauthority_run m]
  have a: "getCAROOT bare_host = []"
    using A by (auto simp: Let_def split: if_splits option.splits prod.splits)
  have b: "getCAROOT readonly_host = ''/home/u/.local/share/mkcert''"
    using B by (auto simp: Let_def split: if_splits option.splits prod.splits)
  have c: "getCAROOT unix_host = ''/home/u/.local/share/mkcert''"
    using C by (auto simp: Let_def split: if_splits option.splits prod.splits)
  have d: "getCAROOT noauthority_host = ''/home/u/.local/share/mkcert''"
    using D by (auto simp: Let_def split: if_splits option.splits prod.splits)
  from a b c d unresolved_run readonly_run uninstall_run noauthority_run show ?thesis
    by (intro conjI)
qed

end
